theory Spec2Isabelle
  imports Complex_Main "HOL-Library.Multiset" "HOL-Library.Sublist"
begin

section \<open>Numbers\<close>

text \<open>
  The arithmetic of \<^verbatim>\<open>arbitrage.js\<close> is done on JavaScript Numbers. A Number is
  modelled as a real number or one of the three special values \<open>NaN\<close>, \<open>+Infinity\<close> and
  \<open>-Infinity\<close>, with the rules of the language for the special values: \<open>NaN\<close> is
  contagious and compares false with everything, a non-zero number divided by zero is
  infinite, \<open>0 / 0\<close> and \<open>Infinity - Infinity\<close> are \<open>NaN\<close>. Rounding of finite results to
  binary64, overflow of finite results and the sign of zero are outside the model: finite
  arithmetic is exact and there is one zero, which divides like \<open>+0\<close>.
\<close>

datatype number = NaN | NegInf | Fin real | PosInf

fun js_neg :: "number \<Rightarrow> number" where
  "js_neg NaN = NaN"
| "js_neg NegInf = PosInf"
| "js_neg (Fin a) = Fin (- a)"
| "js_neg PosInf = NegInf"

fun js_add :: "number \<Rightarrow> number \<Rightarrow> number" where
  "js_add NaN y = NaN"
| "js_add x NaN = NaN"
| "js_add (Fin a) (Fin b) = Fin (a + b)"
| "js_add PosInf NegInf = NaN"
| "js_add NegInf PosInf = NaN"
| "js_add PosInf y = PosInf"
| "js_add x PosInf = PosInf"
| "js_add NegInf y = NegInf"
| "js_add x NegInf = NegInf"

definition js_sub :: "number \<Rightarrow> number \<Rightarrow> number" where
  "js_sub x y = js_add x (js_neg y)"

text \<open>The sign of a product or quotient with an infinite operand.\<close>

definition signed_inf :: "bool \<Rightarrow> number" where
  "signed_inf positive = (if positive then PosInf else NegInf)"

fun js_mul :: "number \<Rightarrow> number \<Rightarrow> number" where
  "js_mul NaN y = NaN"
| "js_mul x NaN = NaN"
| "js_mul (Fin a) (Fin b) = Fin (a * b)"
| "js_mul (Fin a) PosInf = (if a = 0 then NaN else signed_inf (0 < a))"
| "js_mul (Fin a) NegInf = (if a = 0 then NaN else signed_inf (a < 0))"
| "js_mul PosInf (Fin b) = (if b = 0 then NaN else signed_inf (0 < b))"
| "js_mul NegInf (Fin b) = (if b = 0 then NaN else signed_inf (b < 0))"
| "js_mul PosInf PosInf = PosInf"
| "js_mul PosInf NegInf = NegInf"
| "js_mul NegInf PosInf = NegInf"
| "js_mul NegInf NegInf = PosInf"

fun js_div :: "number \<Rightarrow> number \<Rightarrow> number" where
  "js_div NaN y = NaN"
| "js_div x NaN = NaN"
| "js_div (Fin a) (Fin b) =
     (if b = 0 then (if a = 0 then NaN else signed_inf (0 < a)) else Fin (a / b))"
| "js_div (Fin a) PosInf = Fin 0"
| "js_div (Fin a) NegInf = Fin 0"
| "js_div PosInf (Fin b) = signed_inf (0 \<le> b)"
| "js_div NegInf (Fin b) = signed_inf (b < 0)"
| "js_div PosInf PosInf = NaN"
| "js_div PosInf NegInf = NaN"
| "js_div NegInf PosInf = NaN"
| "js_div NegInf NegInf = NaN"

fun js_lt :: "number \<Rightarrow> number \<Rightarrow> bool" where
  "js_lt NaN y = False"
| "js_lt x NaN = False"
| "js_lt (Fin a) (Fin b) = (a < b)"
| "js_lt x NegInf = False"
| "js_lt NegInf y = True"
| "js_lt PosInf y = False"
| "js_lt x PosInf = True"

fun js_le :: "number \<Rightarrow> number \<Rightarrow> bool" where
  "js_le NaN y = False"
| "js_le x NaN = False"
| "js_le (Fin a) (Fin b) = (a \<le> b)"
| "js_le NegInf y = True"
| "js_le x NegInf = False"
| "js_le x PosInf = True"
| "js_le PosInf y = False"

definition js_gt :: "number \<Rightarrow> number \<Rightarrow> bool" where
  "js_gt x y = js_lt y x"

definition js_ge :: "number \<Rightarrow> number \<Rightarrow> bool" where
  "js_ge x y = js_le y x"

text \<open>Truthiness of a Number: \<open>0\<close> and \<open>NaN\<close> are falsy.\<close>

definition truthy :: "number \<Rightarrow> bool" where
  "truthy x = (x \<noteq> NaN \<and> x \<noteq> Fin 0)"

text \<open>\<^verbatim>\<open>Math.min(a, b)\<close> and \<^verbatim>\<open>Math.max(...xs)\<close>; the latter is \<open>-Infinity\<close> on no arguments.\<close>

definition Math_min :: "number \<Rightarrow> number \<Rightarrow> number" where
  "Math_min x y = (if x = NaN \<or> y = NaN then NaN else if js_lt y x then y else x)"

definition Math_max2 :: "number \<Rightarrow> number \<Rightarrow> number" where
  "Math_max2 x y = (if x = NaN \<or> y = NaN then NaN else if js_lt x y then y else x)"

definition Math_max :: "number list \<Rightarrow> number" where
  "Math_max xs = fold (\<lambda>x m. Math_max2 m x) xs NegInf"

section \<open>Data\<close>

text \<open>
  A quote as \<^verbatim>\<open>calculateOpportunities\<close> reads it (the quotes built by the API client
  carry a capture time as well, which the calculation never reads), the fee schedule
  (an object mapping exchange identifiers to percentages) and an opportunity as
  \<^verbatim>\<open>calculateOpportunities\<close> builds it. The time stamp of an opportunity is kept as the
  millisecond value that \<^verbatim>\<open>new Date(timestamp).getTime()\<close> reads back from the ISO string.

  Property reads on the plain objects \<^verbatim>\<open>fees\<close> and \<^verbatim>\<open>grouped\<close> are modelled as map
  lookups: exchange and pair identifiers are taken not to name a member of
  \<^verbatim>\<open>Object.prototype\<close> (such as \<^verbatim>\<open>constructor\<close>), where a read would find the inherited
  member instead.
\<close>

record quote =
  exchange :: string
  pair :: string
  ask :: number
  bid :: number
  askVolume :: number
  bidVolume :: number

type_synonym fees = "string \<rightharpoonup> number"

record opportunity =
  pair :: string
  buyExchange :: string
  buyPrice :: number
  sellExchange :: string
  sellPrice :: number
  spread :: number
  grossProfit :: number
  netProfit :: number
  buyFee :: number
  sellFee :: number
  totalFee :: number
  volume :: number
  timestamp :: number

record stats =
  count :: nat
  avgProfit :: number
  maxProfit :: number
  totalVolume :: number

record breakdown =
  investmentAmount :: number
  buyAmount :: number
  buyFeeAmount :: number
  netBuyAmount :: number
  sellValue :: number
  sellFeeAmount :: number
  netSellValue :: number
  profit :: number
  profitPercent :: number

section \<open>Grouping quotes by trading pair\<close>

text \<open>
  \<^verbatim>\<open>groupByPair\<close> fills an object whose keys are the pairs; each key holds the array of
  the quotes of that pair, in input order. The object is an association list in the
  order in which the keys were created, which is the order in which
  \<^verbatim>\<open>Object.entries\<close> enumerates keys such as \<^verbatim>\<open>BTC/USDT\<close> (keys that are decimal
  array indices would be enumerated first).
\<close>

fun push_quote :: "quote \<Rightarrow> (string \<times> quote list) list \<Rightarrow> (string \<times> quote list) list" where
  "push_quote q [] = [(quote.pair q, [q])]"
| "push_quote q ((k, qs) # grouped) =
     (if k = quote.pair q then (k, qs @ [q]) # grouped else (k, qs) # push_quote q grouped)"

definition groupByPair :: "quote list \<Rightarrow> (string \<times> quote list) list" where
  "groupByPair quotes = fold push_quote quotes []"

section \<open>Sorting an array with a comparator\<close>

text \<open>
  \<^verbatim>\<open>Array.prototype.sort(cmp)\<close> is stable; \<open>cmp a b > 0\<close> places \<open>a\<close> after \<open>b\<close>, and
  a comparator result of \<open>NaN\<close> counts as \<open>0\<close>. It is modelled as the stable insertion
  sort, which is the result of every stable sort when the comparator is consistent.
\<close>

fun insert_sorted :: "('a \<Rightarrow> 'a \<Rightarrow> number) \<Rightarrow> 'a \<Rightarrow> 'a list \<Rightarrow> 'a list" where
  "insert_sorted cmp x [] = [x]"
| "insert_sorted cmp x (y # ys) =
     (if js_gt (cmp x y) (Fin 0) then y # insert_sorted cmp x ys else x # y # ys)"

definition array_sort :: "('a \<Rightarrow> 'a \<Rightarrow> number) \<Rightarrow> 'a list \<Rightarrow> 'a list" where
  "array_sort cmp xs = foldr (insert_sorted cmp) xs []"

section \<open>Detecting opportunities\<close>

text \<open>The expression \<^verbatim>\<open>fees[exchange] || 0.1\<close>.\<close>

definition fee_or_default :: "fees \<Rightarrow> string \<Rightarrow> number" where
  "fee_or_default fees ex =
     (case fees ex of
        None \<Rightarrow> Fin 0.1
      | Some v \<Rightarrow> if truthy v then v else Fin 0.1)"

text \<open>
  The body of the inner loop of \<^verbatim>\<open>calculateOpportunities\<close>, for the buy leg at position
  \<open>i\<close> and the sell leg at position \<open>j\<close> of the quotes of one pair. \<open>clock\<close> gives the
  successive readings of the system clock (\<^verbatim>\<open>new Date()\<close>) during one call, in
  milliseconds; one reading is taken for each opportunity pushed.
\<close>

definition inner_body ::
  "(nat \<Rightarrow> int) \<Rightarrow> fees \<Rightarrow> number \<Rightarrow> string \<Rightarrow> quote list \<Rightarrow> nat \<Rightarrow> nat
     \<Rightarrow> opportunity list \<Rightarrow> opportunity list" where
  "inner_body clock fees minProfit p pairQuotes i j opportunities =
     (if i = j then opportunities
      else
        let buyExchange = pairQuotes ! i;
            sellExchange = pairQuotes ! j;
            buyPrice = ask buyExchange;
            sellPrice = bid sellExchange
        in
          if js_le sellPrice buyPrice then opportunities
          else
            let buyFee = fee_or_default fees (exchange buyExchange);
                sellFee = fee_or_default fees (exchange sellExchange);
                totalFee = js_add buyFee sellFee;
                grossProfit = js_mul (js_div (js_sub sellPrice buyPrice) buyPrice) (Fin 100);
                netProfit = js_sub grossProfit totalFee
            in
              if js_ge netProfit minProfit
              then opportunities @
                [\<lparr> pair = p,
                   buyExchange = exchange buyExchange,
                   buyPrice = buyPrice,
                   sellExchange = exchange sellExchange,
                   sellPrice = sellPrice,
                   spread = js_sub sellPrice buyPrice,
                   grossProfit = grossProfit,
                   netProfit = netProfit,
                   buyFee = buyFee,
                   sellFee = sellFee,
                   totalFee = totalFee,
                   volume = Math_min (askVolume buyExchange) (bidVolume sellExchange),
                   timestamp = Fin (real_of_int (clock (length opportunities))) \<rparr>]
              else opportunities)"

text \<open>The two nested loops over the positions of the quotes of one pair.\<close>

definition scan_pair ::
  "(nat \<Rightarrow> int) \<Rightarrow> fees \<Rightarrow> number \<Rightarrow> string \<Rightarrow> quote list
     \<Rightarrow> opportunity list \<Rightarrow> opportunity list" where
  "scan_pair clock fees minProfit p pairQuotes opportunities =
     fold (\<lambda>i opps.
        fold (\<lambda>j. inner_body clock fees minProfit p pairQuotes i j)
          [0..<length pairQuotes] opps)
       [0..<length pairQuotes] opportunities"

text \<open>The loop over the groups, before the final sort.\<close>

definition scan_all ::
  "(nat \<Rightarrow> int) \<Rightarrow> fees \<Rightarrow> number \<Rightarrow> (string \<times> quote list) list \<Rightarrow> opportunity list" where
  "scan_all clock fees minProfit quotesByPair =
     fold (\<lambda>(p, pairQuotes) opps.
        if length pairQuotes < 2 then opps
        else scan_pair clock fees minProfit p pairQuotes opps)
       quotesByPair []"

text \<open>
  \<^verbatim>\<open>calculateOpportunities(quotes, fees, minProfit = 0.5)\<close>: an argument that is not
  supplied is \<open>None\<close>.
\<close>

definition calculateOpportunities ::
  "(nat \<Rightarrow> int) \<Rightarrow> quote list \<Rightarrow> fees \<Rightarrow> number option \<Rightarrow> opportunity list" where
  "calculateOpportunities clock quotes fees minProfitArg =
     (let minProfit = (case minProfitArg of None \<Rightarrow> Fin 0.5 | Some m \<Rightarrow> m);
          quotesByPair = groupByPair quotes;
          opportunities = scan_all clock fees minProfit quotesByPair
      in array_sort (\<lambda>a b. js_sub (netProfit b) (netProfit a)) opportunities)"

section \<open>Analytics\<close>

text \<open>
  \<^verbatim>\<open>filterByPair(opportunities, pair)\<close>: a pair that is undefined or null is \<open>None\<close>;
  the empty string is the only falsy string.
\<close>

definition filterByPair :: "opportunity list \<Rightarrow> string option \<Rightarrow> opportunity list" where
  "filterByPair opportunities pairArg =
     (case pairArg of
        None \<Rightarrow> opportunities
      | Some p \<Rightarrow>
          if p = [] \<or> p = ''all'' then opportunities
          else filter (\<lambda>opp. opportunity.pair opp = p) opportunities)"

definition filterByMinProfit :: "opportunity list \<Rightarrow> number \<Rightarrow> opportunity list" where
  "filterByMinProfit opportunities minProfit =
     filter (\<lambda>opp. js_ge (netProfit opp) minProfit) opportunities"

text \<open>\<^verbatim>\<open>xs.reduce((a, b) => a + b, 0)\<close>.\<close>

definition reduce_add :: "number list \<Rightarrow> number" where
  "reduce_add xs = fold (\<lambda>b a. js_add a b) xs (Fin 0)"

definition getStats :: "opportunity list \<Rightarrow> stats" where
  "getStats opportunities =
     (if length opportunities = 0
      then \<lparr> count = 0, avgProfit = Fin 0, maxProfit = Fin 0, totalVolume = Fin 0 \<rparr>
      else
        let profits = map netProfit opportunities;
            volumes = map volume opportunities
        in \<lparr> count = length opportunities,
             avgProfit = js_div (reduce_add profits) (Fin (real (length profits))),
             maxProfit = Math_max profits,
             totalVolume = reduce_add volumes \<rparr>)"

definition calculateProfitAmount :: "opportunity \<Rightarrow> number \<Rightarrow> breakdown" where
  "calculateProfitAmount opportunity investment =
     (let buyAmount = js_div investment (buyPrice opportunity);
          buyFeeAmount = js_div (js_mul buyAmount (buyFee opportunity)) (Fin 100);
          netBuyAmount = js_sub buyAmount buyFeeAmount;
          sellValue = js_mul netBuyAmount (sellPrice opportunity);
          sellFeeAmount = js_div (js_mul sellValue (sellFee opportunity)) (Fin 100);
          netSellValue = js_sub sellValue sellFeeAmount;
          profit = js_sub netSellValue investment;
          profitPercent = js_mul (js_div profit investment) (Fin 100)
      in \<lparr> investmentAmount = investment,
           buyAmount = buyAmount,
           buyFeeAmount = buyFeeAmount,
           netBuyAmount = netBuyAmount,
           sellValue = sellValue,
           sellFeeAmount = sellFeeAmount,
           netSellValue = netSellValue,
           profit = profit,
           profitPercent = profitPercent \<rparr>)"

text \<open>
  \<^verbatim>\<open>isValid(opportunity, maxAge = 60000)\<close>; \<open>now\<close> is the reading of \<^verbatim>\<open>Date.now()\<close>.
\<close>

definition isValid :: "int \<Rightarrow> opportunity \<Rightarrow> number option \<Rightarrow> bool" where
  "isValid now opportunity maxAgeArg =
     (let maxAge = (case maxAgeArg of None \<Rightarrow> Fin 60000 | Some m \<Rightarrow> m);
          age = js_sub (Fin (real_of_int now)) (timestamp opportunity)
      in js_lt age maxAge \<and> js_gt (netProfit opportunity) (Fin 0))"

section \<open>Notions of the specification\<close>

text \<open>
  The content of an opportunity is the opportunity without its detection time: two runs
  of the detector read the clock at different times.
\<close>

definition content :: "opportunity \<Rightarrow> opportunity" where
  "content opp = opp\<lparr> timestamp := Fin 0 \<rparr>"

text \<open>
  The condition under which \<^verbatim>\<open>filterByPair\<close> keeps an opportunity: no pair is given,
  the pair is empty or the sentinel \<^verbatim>\<open>all\<close>, or it is the pair of the opportunity.
\<close>

definition pair_selected :: "string option \<Rightarrow> opportunity \<Rightarrow> bool" where
  "pair_selected pairArg opp =
     (case pairArg of
        None \<Rightarrow> True
      | Some p \<Rightarrow> p = [] \<or> p = ''all'' \<or> opportunity.pair opp = p)"

text \<open>
  The profit projection as the specification words it, on real numbers: the purchase
  price \<open>p\<close>, the sale price \<open>s\<close>, the two fee percentages and the invested amount \<open>a\<close>.
\<close>

definition projectProfit :: "real \<Rightarrow> real \<Rightarrow> real \<Rightarrow> real \<Rightarrow> real \<Rightarrow> breakdown" where
  "projectProfit p s buyFeePct sellFeePct a =
     (let buyAmount = a / p;
          buyFeeAmount = buyAmount * buyFeePct / 100;
          netBuyAmount = buyAmount - buyFeeAmount;
          sellValue = netBuyAmount * s;
          sellFeeAmount = sellValue * sellFeePct / 100;
          netSellValue = sellValue - sellFeeAmount;
          profit = netSellValue - a;
          profitPct = profit / a * 100
      in \<lparr> investmentAmount = Fin a,
           buyAmount = Fin buyAmount,
           buyFeeAmount = Fin buyFeeAmount,
           netBuyAmount = Fin netBuyAmount,
           sellValue = Fin sellValue,
           sellFeeAmount = Fin sellFeeAmount,
           netSellValue = Fin netSellValue,
           profit = Fin profit,
           profitPercent = Fin profitPct \<rparr>)"

section \<open>Notions used in the proofs\<close>

text \<open>
  The opportunity that the inner loop builds for a buy leg and a sell leg, without its
  detection time.
\<close>

definition candidate :: "fees \<Rightarrow> string \<Rightarrow> quote \<Rightarrow> quote \<Rightarrow> opportunity" where
  "candidate fees p buyQ sellQ =
     \<lparr> pair = p,
       buyExchange = exchange buyQ,
       buyPrice = ask buyQ,
       sellExchange = exchange sellQ,
       sellPrice = bid sellQ,
       spread = js_sub (bid sellQ) (ask buyQ),
       grossProfit = js_mul (js_div (js_sub (bid sellQ) (ask buyQ)) (ask buyQ)) (Fin 100),
       netProfit = js_sub (js_mul (js_div (js_sub (bid sellQ) (ask buyQ)) (ask buyQ)) (Fin 100))
         (js_add (fee_or_default fees (exchange buyQ)) (fee_or_default fees (exchange sellQ))),
       buyFee = fee_or_default fees (exchange buyQ),
       sellFee = fee_or_default fees (exchange sellQ),
       totalFee = js_add (fee_or_default fees (exchange buyQ))
         (fee_or_default fees (exchange sellQ)),
       volume = Math_min (askVolume buyQ) (bidVolume sellQ),
       timestamp = Fin 0 \<rparr>"

text \<open>
  What the fields of an opportunity pushed for a buy leg and a sell leg satisfy, and an
  opportunity pushed for two different positions of the quotes of one pair.
\<close>

definition emitted_from :: "fees \<Rightarrow> number \<Rightarrow> string \<Rightarrow> quote \<Rightarrow> quote \<Rightarrow> opportunity \<Rightarrow> bool" where
  "emitted_from fees minProfit p buyQ sellQ opp =
     (opportunity.pair opp = p
      \<and> buyExchange opp = exchange buyQ \<and> buyPrice opp = ask buyQ
      \<and> sellExchange opp = exchange sellQ \<and> sellPrice opp = bid sellQ
      \<and> \<not> js_le (bid sellQ) (ask buyQ)
      \<and> buyFee opp = fee_or_default fees (exchange buyQ)
      \<and> sellFee opp = fee_or_default fees (exchange sellQ)
      \<and> totalFee opp = js_add (buyFee opp) (sellFee opp)
      \<and> spread opp = js_sub (sellPrice opp) (buyPrice opp)
      \<and> grossProfit opp
          = js_mul (js_div (js_sub (sellPrice opp) (buyPrice opp)) (buyPrice opp)) (Fin 100)
      \<and> netProfit opp = js_sub (grossProfit opp) (totalFee opp)
      \<and> js_ge (netProfit opp) minProfit
      \<and> volume opp = Math_min (askVolume buyQ) (bidVolume sellQ))"

definition from_group :: "fees \<Rightarrow> number \<Rightarrow> string \<Rightarrow> quote list \<Rightarrow> opportunity \<Rightarrow> bool" where
  "from_group fees minProfit p pairQuotes opp =
     (\<exists>i j. i < length pairQuotes \<and> j < length pairQuotes \<and> i \<noteq> j
        \<and> emitted_from fees minProfit p (pairQuotes ! i) (pairQuotes ! j) opp)"

text \<open>
  The state of \<^verbatim>\<open>grouped\<close> after the quotes \<open>seen\<close>: one key for each pair seen, holding
  the quotes of that pair in their order.
\<close>

definition grouped_ok :: "quote list \<Rightarrow> (string \<times> quote list) list \<Rightarrow> bool" where
  "grouped_ok seen grouped =
     (distinct (map fst grouped)
      \<and> fst ` set grouped = quote.pair ` set seen
      \<and> (\<forall>(k, qs) \<in> set grouped. qs = filter (\<lambda>q. quote.pair q = k) seen))"

text \<open>
  The opportunities found with a higher threshold are, by content and counted with
  multiplicity, among those found with a lower one.
\<close>

definition covered :: "opportunity list \<Rightarrow> opportunity list \<Rightarrow> bool" where
  "covered higher lower = (mset (map content higher) \<subseteq># mset (map content lower))"

text \<open>Three quotes of one pair and a fee schedule, for the concrete instances below.\<close>

definition demo_quotes :: "quote list" where
  "demo_quotes =
     [\<lparr> exchange = ''BINANCE'', quote.pair = ''BTC/USDT'', ask = Fin 42000, bid = Fin 41990,
         askVolume = Fin 1, bidVolume = Fin 2 \<rparr>,
      \<lparr> exchange = ''COINBASE'', quote.pair = ''BTC/USDT'', ask = Fin 42500, bid = Fin 42480,
         askVolume = Fin 3, bidVolume = Fin 4 \<rparr>,
      \<lparr> exchange = ''KRAKEN'', quote.pair = ''BTC/USDT'', ask = Fin 43010, bid = Fin 43000,
         askVolume = Fin 5, bidVolume = Fin 6 \<rparr>]"

definition demo_fees :: fees where
  "demo_fees = [''BINANCE'' \<mapsto> Fin 0.1, ''COINBASE'' \<mapsto> Fin 0.6]"

section \<open>Facts about numbers\<close>

lemma js_le_not_NaN: "js_le x y \<Longrightarrow> x \<noteq> NaN \<and> y \<noteq> NaN"
  by (cases x; cases y; simp)

lemma js_le_trans: "js_le x y \<Longrightarrow> js_le y z \<Longrightarrow> js_le x z"
  by (cases x; cases y; cases z; simp)

lemma js_lt_imp_le: "js_lt x y \<Longrightarrow> js_le x y"
  by (cases x; cases y; simp)

lemma js_not_lt_iff: "x \<noteq> NaN \<Longrightarrow> y \<noteq> NaN \<Longrightarrow> (\<not> js_lt x y) = js_le y x"
  by (cases x; cases y; auto)

lemma js_not_le_iff: "x \<noteq> NaN \<Longrightarrow> y \<noteq> NaN \<Longrightarrow> (\<not> js_le x y) = js_lt y x"
  by (cases x; cases y; auto)

lemma js_add_not_NaN: "js_add x y \<noteq> NaN \<Longrightarrow> x \<noteq> NaN \<and> y \<noteq> NaN"
  by (cases x; cases y; simp)

lemma js_neg_NaN_iff: "(js_neg x = NaN) = (x = NaN)"
  by (cases x; simp)

lemma js_sub_not_NaN: "js_sub x y \<noteq> NaN \<Longrightarrow> x \<noteq> NaN \<and> y \<noteq> NaN"
  unfolding js_sub_def using js_add_not_NaN js_neg_NaN_iff by blast

lemma js_mul_not_NaN: "js_mul x y \<noteq> NaN \<Longrightarrow> x \<noteq> NaN \<and> y \<noteq> NaN"
  by (cases x; cases y; simp)

lemma js_div_not_NaN: "js_div x y \<noteq> NaN \<Longrightarrow> x \<noteq> NaN \<and> y \<noteq> NaN"
  by (cases x; cases y; simp)

text \<open>
  On numbers other than \<open>NaN\<close> the comparator \<^verbatim>\<open>(a, b) => b - a\<close> is positive exactly
  when \<open>a\<close> is the smaller one; on two equal infinities it is \<open>NaN\<close>, which counts as \<open>0\<close>.
\<close>

lemma cmp_positive_iff:
  "x \<noteq> NaN \<Longrightarrow> y \<noteq> NaN \<Longrightarrow> js_gt (js_sub y x) (Fin 0) = js_lt x y"
  by (cases x; cases y; auto simp: js_gt_def js_sub_def)

section \<open>Loops as folds\<close>

text \<open>An invariant of a loop, and a relation between two runs of a loop.\<close>

lemma fold_invariant:
  assumes "I s" and "\<And>x s. x \<in> set xs \<Longrightarrow> I s \<Longrightarrow> I (f x s)"
  shows "I (fold f xs s)"
  using assms by (induction xs arbitrary: s) auto

lemma fold_related:
  assumes "R s2 s1" and "\<And>x s2 s1. x \<in> set xs \<Longrightarrow> R s2 s1 \<Longrightarrow> R (f2 x s2) (f1 x s1)"
  shows "R (fold f2 xs s2) (fold f1 xs s1)"
  using assms by (induction xs arbitrary: s2 s1) auto

section \<open>Grouping\<close>

lemma push_quote_keys:
  "fst ` set (push_quote q grouped) = insert (quote.pair q) (fst ` set grouped)"
  by (induction q grouped rule: push_quote.induct) auto

lemma push_quote_distinct:
  "distinct (map fst grouped) \<Longrightarrow> distinct (map fst (push_quote q grouped))"
proof (induction q grouped rule: push_quote.induct)
  case (1 q)
  then show ?case by simp
next
  case (2 q k qs grouped)
  then show ?case
    using push_quote_keys [of q grouped] by auto
qed

lemma push_quote_entry:
  assumes "distinct (map fst grouped)" and "(k, qs) \<in> set (push_quote q grouped)"
  shows "(k \<noteq> quote.pair q \<and> (k, qs) \<in> set grouped)
       \<or> (k = quote.pair q \<and> (\<exists>qs'. (k, qs') \<in> set grouped \<and> qs = qs' @ [q]))
       \<or> (k = quote.pair q \<and> k \<notin> fst ` set grouped \<and> qs = [q])"
  using assms
proof (induction q grouped rule: push_quote.induct)
  case (1 q)
  then show ?case by simp
next
  case (2 q k' qs' grouped)
  show ?case
  proof (cases "k' = quote.pair q")
    case True
    with "2.prems" show ?thesis
      by (auto simp: rev_image_eqI)
  next
    case False
    with "2.prems" "2.IH" show ?thesis
      by auto
  qed
qed

lemma push_quote_ok:
  assumes "grouped_ok seen grouped"
  shows "grouped_ok (seen @ [q]) (push_quote q grouped)"
proof -
  from assms have d: "distinct (map fst grouped)"
    and keys: "fst ` set grouped = quote.pair ` set seen"
    and groups: "\<And>k qs. (k, qs) \<in> set grouped \<Longrightarrow> qs = filter (\<lambda>q. quote.pair q = k) seen"
    by (auto simp: grouped_ok_def)
  have "qs = filter (\<lambda>x. quote.pair x = k) (seen @ [q])"
    if "(k, qs) \<in> set (push_quote q grouped)" for k qs
  proof -
    from push_quote_entry [OF d that] consider
      "k \<noteq> quote.pair q" "(k, qs) \<in> set grouped"
      | qs' where "k = quote.pair q" "(k, qs') \<in> set grouped" "qs = qs' @ [q]"
      | "k = quote.pair q" "k \<notin> fst ` set grouped" "qs = [q]"
      by blast
    then show ?thesis
    proof cases
      case 1
      then show ?thesis using groups by auto
    next
      case 2
      then show ?thesis using groups by auto
    next
      case 3
      with keys have "k \<notin> quote.pair ` set seen"
        by simp
      then have "filter (\<lambda>x. quote.pair x = k) seen = []"
        unfolding filter_empty_conv by blast
      with 3 show ?thesis by simp
    qed
  qed
  moreover have "fst ` set (push_quote q grouped) = quote.pair ` set (seen @ [q])"
    using keys by (simp add: push_quote_keys)
  ultimately show ?thesis
    using push_quote_distinct [OF d] unfolding grouped_ok_def by auto
qed

lemma fold_push_quote_ok:
  "grouped_ok seen grouped \<Longrightarrow> grouped_ok (seen @ quotes) (fold push_quote quotes grouped)"
proof (induction quotes arbitrary: seen grouped)
  case Nil
  then show ?case by simp
next
  case (Cons q quotes)
  from Cons.IH [OF push_quote_ok [OF Cons.prems, of q]] show ?case by simp
qed

lemma groupByPair_group:
  assumes "(p, pq) \<in> set (groupByPair quotes)"
  shows "pq = filter (\<lambda>q. quote.pair q = p) quotes"
proof -
  have "grouped_ok [] []" by (simp add: grouped_ok_def)
  from fold_push_quote_ok [OF this, of quotes] have "grouped_ok quotes (groupByPair quotes)"
    by (simp add: groupByPair_def)
  with assms show ?thesis
    by (auto simp: grouped_ok_def)
qed

section \<open>Sorting\<close>

lemma mset_insert_sorted: "mset (insert_sorted cmp x xs) = add_mset x (mset xs)"
  by (induction xs) auto

lemma mset_array_sort: "mset (array_sort cmp xs) = mset xs"
  unfolding array_sort_def by (induction xs) (auto simp: mset_insert_sorted)

lemma set_array_sort: "set (array_sort cmp xs) = set xs"
  using mset_array_sort [of cmp xs] by (metis set_mset_mset)

lemma sorted_insert_sorted:
  assumes "sorted_wrt (\<lambda>a b. js_ge (netProfit a) (netProfit b)) xs"
    and "netProfit x \<noteq> NaN" and "\<forall>y \<in> set xs. netProfit y \<noteq> NaN"
  shows "sorted_wrt (\<lambda>a b. js_ge (netProfit a) (netProfit b))
           (insert_sorted (\<lambda>a b. js_sub (netProfit b) (netProfit a)) x xs)"
  using assms
proof (induction xs)
  case Nil
  then show ?case by simp
next
  case (Cons y ys)
  let ?cmp = "\<lambda>a b. js_sub (netProfit b) (netProfit a)"
  from Cons.prems have nn: "netProfit x \<noteq> NaN" "netProfit y \<noteq> NaN" by simp_all
  show ?case
  proof (cases "js_gt (?cmp x y) (Fin 0)")
    case True
    then have "js_lt (netProfit x) (netProfit y)"
      using cmp_positive_iff [OF nn] by simp
    then have y_x: "js_ge (netProfit y) (netProfit x)"
      by (simp add: js_ge_def js_lt_imp_le)
    have "sorted_wrt (\<lambda>a b. js_ge (netProfit a) (netProfit b)) (insert_sorted ?cmp x ys)"
      using Cons by simp
    moreover have "\<forall>z \<in> set (insert_sorted ?cmp x ys). js_ge (netProfit y) (netProfit z)"
      using Cons.prems(1) y_x
      by (metis insert_iff mset_insert_sorted set_mset_add_mset_insert set_mset_mset sorted_wrt.simps(2))
    ultimately show ?thesis using True by simp
  next
    case False
    then have "\<not> js_lt (netProfit x) (netProfit y)"
      using cmp_positive_iff [OF nn] by simp
    then have x_y: "js_ge (netProfit x) (netProfit y)"
      using js_not_lt_iff [OF nn] by (simp add: js_ge_def)
    have "\<forall>z \<in> set ys. js_ge (netProfit x) (netProfit z)"
      using Cons.prems(1) x_y js_le_trans unfolding js_ge_def by auto
    with x_y Cons.prems(1) False show ?thesis by simp
  qed
qed

lemma sorted_array_sort:
  assumes "\<forall>y \<in> set xs. netProfit y \<noteq> NaN"
  shows "sorted_wrt (\<lambda>a b. js_ge (netProfit a) (netProfit b))
           (array_sort (\<lambda>a b. js_sub (netProfit b) (netProfit a)) xs)"
  using assms
proof (induction xs)
  case Nil
  then show ?case by (simp add: array_sort_def)
next
  case (Cons x xs)
  then have "sorted_wrt (\<lambda>a b. js_ge (netProfit a) (netProfit b))
           (array_sort (\<lambda>a b. js_sub (netProfit b) (netProfit a)) xs)"
    by simp
  from sorted_insert_sorted [OF this, of x] Cons.prems show ?case
    by (simp add: array_sort_def set_array_sort [unfolded array_sort_def])
qed

section \<open>Where an opportunity comes from\<close>

lemma inner_body_new:
  assumes "opp \<in> set (inner_body clock fees m p pq i j opps)" and "opp \<notin> set opps"
  shows "i \<noteq> j \<and> emitted_from fees m p (pq ! i) (pq ! j) opp"
  using assms
  by (auto simp: inner_body_def emitted_from_def Let_def split: if_splits)

lemma scan_pair_new:
  assumes "opp \<in> set (scan_pair clock fees m p pq opps)"
  shows "opp \<in> set opps \<or> from_group fees m p pq opp"
proof -
  let ?I = "\<lambda>acc. \<forall>x \<in> set acc. x \<in> set opps \<or> from_group fees m p pq x"
  have inner: "?I (fold (inner_body clock fees m p pq i) [0..<length pq] acc)"
    if "i < length pq" and "?I acc" for i acc
  proof (rule fold_invariant [where I = ?I])
    show "?I acc" by (rule that)
  next
    fix j s
    assume j: "j \<in> set [0..<length pq]" and s: "?I s"
    show "?I (inner_body clock fees m p pq i j s)"
    proof
      fix x
      assume x: "x \<in> set (inner_body clock fees m p pq i j s)"
      show "x \<in> set opps \<or> from_group fees m p pq x"
      proof (cases "x \<in> set s")
        case True
        with s show ?thesis by blast
      next
        case False
        from inner_body_new [OF x False] that(1) j have "from_group fees m p pq x"
          unfolding from_group_def by auto
        then show ?thesis ..
      qed
    qed
  qed
  have "?I (scan_pair clock fees m p pq opps)"
    unfolding scan_pair_def
  proof (rule fold_invariant [where I = ?I])
    show "?I opps" by simp
  next
    fix i s
    assume "i \<in> set [0..<length pq]" and "?I s"
    then show "?I (fold (inner_body clock fees m p pq i) [0..<length pq] s)"
      using inner [of i s] by simp
  qed
  with assms show ?thesis by blast
qed

lemma scan_all_new:
  assumes "opp \<in> set (scan_all clock fees m groups)"
  shows "\<exists>(p, pq) \<in> set groups. from_group fees m p pq opp"
proof -
  let ?I = "\<lambda>acc. \<forall>x \<in> set acc. \<exists>(p, pq) \<in> set groups. from_group fees m p pq x"
  have "?I (scan_all clock fees m groups)"
    unfolding scan_all_def
  proof (rule fold_invariant [where I = ?I])
    show "?I []" by simp
  next
    fix g s
    assume g: "g \<in> set groups" and s: "?I s"
    obtain p pq where g_eq: "g = (p, pq)" by (cases g)
    show "?I ((case g of (p, pairQuotes) \<Rightarrow> \<lambda>opps. if length pairQuotes < 2 then opps
          else scan_pair clock fees m p pairQuotes opps) s)"
    proof
      fix x
      assume "x \<in> set ((case g of (p, pairQuotes) \<Rightarrow> \<lambda>opps. if length pairQuotes < 2 then opps
          else scan_pair clock fees m p pairQuotes opps) s)"
      then have "x \<in> set s \<or> x \<in> set (scan_pair clock fees m p pq s)"
        by (simp add: g_eq split: if_splits)
      then have "x \<in> set s \<or> from_group fees m p pq x"
        using scan_pair_new by blast
      then show "\<exists>(p, pq) \<in> set groups. from_group fees m p pq x"
        using s g g_eq by blast
    qed
  qed
  with assms show ?thesis by blast
qed

lemma calculateOpportunities_origin:
  assumes "opp \<in> set (calculateOpportunities clock quotes fees minProfitArg)"
  shows "\<exists>p. from_group fees (case minProfitArg of None \<Rightarrow> Fin 0.5 | Some m \<Rightarrow> m) p
           (filter (\<lambda>q. quote.pair q = p) quotes) opp"
proof -
  let ?m = "case minProfitArg of None \<Rightarrow> Fin 0.5 | Some m \<Rightarrow> m"
  from assms have "opp \<in> set (scan_all clock fees ?m (groupByPair quotes))"
    by (simp add: calculateOpportunities_def Let_def set_array_sort)
  from scan_all_new [OF this] obtain p pq
    where "(p, pq) \<in> set (groupByPair quotes)" and "from_group fees ?m p pq opp"
    by blast
  with groupByPair_group show ?thesis by blast
qed

lemma emitted_fromD:
  assumes "emitted_from fees m p buyQ sellQ opp"
  shows "buyExchange opp = exchange buyQ" and "sellExchange opp = exchange sellQ"
    and "\<not> js_le (sellPrice opp) (buyPrice opp)"
    and "totalFee opp = js_add (buyFee opp) (sellFee opp)"
    and "grossProfit opp
          = js_mul (js_div (js_sub (sellPrice opp) (buyPrice opp)) (buyPrice opp)) (Fin 100)"
    and "netProfit opp = js_sub (grossProfit opp) (totalFee opp)"
    and "js_ge (netProfit opp) m"
    and "buyFee opp = fee_or_default fees (exchange buyQ)"
    and "sellFee opp = fee_or_default fees (exchange sellQ)"
  using assms by (auto simp: emitted_from_def)

lemma emitted_from_not_NaN:
  assumes "emitted_from fees m p buyQ sellQ opp"
  shows "netProfit opp \<noteq> NaN" and "sellPrice opp \<noteq> NaN" and "buyPrice opp \<noteq> NaN"
proof -
  note ge = emitted_fromD(7) [OF assms]
    and net = emitted_fromD(6) [OF assms]
    and gross = emitted_fromD(5) [OF assms]
  from ge show n: "netProfit opp \<noteq> NaN"
    using js_le_not_NaN by (auto simp: js_ge_def)
  with net have "grossProfit opp \<noteq> NaN"
    using js_sub_not_NaN by metis
  with gross have "js_div (js_sub (sellPrice opp) (buyPrice opp)) (buyPrice opp) \<noteq> NaN"
    using js_mul_not_NaN by metis
  then have "js_sub (sellPrice opp) (buyPrice opp) \<noteq> NaN"
    using js_div_not_NaN by metis
  then show "sellPrice opp \<noteq> NaN" and "buyPrice opp \<noteq> NaN"
    using js_sub_not_NaN by metis+
qed

lemma scan_all_not_NaN:
  "\<forall>opp \<in> set (scan_all clock fees m groups). netProfit opp \<noteq> NaN"
  using scan_all_new emitted_from_not_NaN(1) unfolding from_group_def by blast

lemma distinct_exchanges_of_pair:
  "distinct (map (\<lambda>q. (quote.pair q, exchange q)) quotes)
   \<Longrightarrow> distinct (map exchange (filter (\<lambda>q. quote.pair q = p) quotes))"
proof (induction quotes)
  case Nil
  then show ?case by simp
next
  case (Cons a quotes)
  then have tail: "distinct (map exchange (filter (\<lambda>q. quote.pair q = p) quotes))"
    and fresh: "(quote.pair a, exchange a) \<notin> (\<lambda>q. (quote.pair q, exchange q)) ` set quotes"
    by simp_all
  have other: "exchange q \<noteq> exchange a"
    if "q \<in> set quotes" and "quote.pair q = quote.pair a" for q
  proof
    assume "exchange q = exchange a"
    with that(2) have "(quote.pair a, exchange a) = (quote.pair q, exchange q)"
      by simp
    with that(1) fresh show False
      by (metis (mono_tags, lifting) image_eqI)
  qed
  have "exchange a \<notin> set (map exchange (filter (\<lambda>q. quote.pair q = p) quotes))"
    if "quote.pair a = p"
  proof
    assume "exchange a \<in> set (map exchange (filter (\<lambda>q. quote.pair q = p) quotes))"
    then obtain q where "q \<in> set quotes" and "quote.pair q = p" and "exchange q = exchange a"
      by auto
    with other that show False by blast
  qed
  with tail show ?case by simp
qed

text \<open>
  The fee of a leg: the entry of the schedule when the exchange has one that is neither
  \<open>0\<close> nor \<open>NaN\<close>, and 0.1 otherwise, whether the exchange is absent or its entry is \<open>0\<close>.
\<close>

lemma fee_or_default_absent: "fees ex = None \<Longrightarrow> fee_or_default fees ex = Fin 0.1"
  by (simp add: fee_or_default_def)

lemma fee_or_default_present:
  "fees ex = Some v \<Longrightarrow> v \<noteq> Fin 0 \<Longrightarrow> v \<noteq> NaN \<Longrightarrow> fee_or_default fees ex = v"
  by (simp add: fee_or_default_def truthy_def)

lemma fee_or_default_zero: "fees ex = Some (Fin 0) \<Longrightarrow> fee_or_default fees ex = Fin 0.1"
  by (simp add: fee_or_default_def truthy_def)

lemma fees_of_returned:
  assumes "opp \<in> set (calculateOpportunities clock quotes fees minProfitArg)"
  shows "buyFee opp = fee_or_default fees (buyExchange opp)"
    and "sellFee opp = fee_or_default fees (sellExchange opp)"
    and "totalFee opp = js_add (buyFee opp) (sellFee opp)"
proof -
  from calculateOpportunities_origin [OF assms] obtain p buyQ sellQ
    where e: "emitted_from fees (case minProfitArg of None \<Rightarrow> Fin 0.5 | Some m \<Rightarrow> m)
                p buyQ sellQ opp"
    unfolding from_group_def by blast
  from emitted_fromD(1,8) [OF e] show "buyFee opp = fee_or_default fees (buyExchange opp)"
    by simp
  from emitted_fromD(2,9) [OF e] show "sellFee opp = fee_or_default fees (sellExchange opp)"
    by simp
  from emitted_fromD(4) [OF e] show "totalFee opp = js_add (buyFee opp) (sellFee opp)" .
qed

section \<open>Two runs with different thresholds\<close>

lemma covered_push:
  assumes "covered a2 a1" and "content x2 = content x1"
  shows "covered (a2 @ [x2]) (a1 @ [x1])"
  using assms by (simp add: covered_def)

lemma covered_push_lower:
  assumes "covered a2 a1"
  shows "covered a2 (a1 @ [x1])"
proof -
  have "mset (map content a1) \<subseteq># mset (map content (a1 @ [x1]))"
    by simp
  with assms show ?thesis
    unfolding covered_def by (rule subset_mset.order_trans)
qed

lemma inner_body_candidate:
  "inner_body clock fees t p pq i j a =
     (if i \<noteq> j \<and> \<not> js_le (bid (pq ! j)) (ask (pq ! i))
         \<and> js_ge (netProfit (candidate fees p (pq ! i) (pq ! j))) t
      then a @ [(candidate fees p (pq ! i) (pq ! j))
                  \<lparr> timestamp := Fin (real_of_int (clock (length a))) \<rparr>]
      else a)"
  by (simp add: inner_body_def candidate_def Let_def)

lemma content_candidate:
  "content ((candidate fees p buyQ sellQ)\<lparr> timestamp := ts \<rparr>) = candidate fees p buyQ sellQ"
  by (simp add: content_def candidate_def)

lemma inner_body_covered:
  assumes "js_le t1 t2" and "covered a2 a1"
  shows "covered (inner_body clock2 fees t2 p pq i j a2) (inner_body clock1 fees t1 p pq i j a1)"
proof -
  let ?c = "candidate fees p (pq ! i) (pq ! j)"
  have ge: "js_ge (netProfit ?c) t1" if "js_ge (netProfit ?c) t2"
    using that assms(1) js_le_trans unfolding js_ge_def by blast
  show ?thesis
  proof (cases "i \<noteq> j \<and> \<not> js_le (bid (pq ! j)) (ask (pq ! i))")
    case False
    with assms(2) show ?thesis
      by (auto simp: inner_body_candidate)
  next
    case legs: True
    show ?thesis
    proof (cases "js_ge (netProfit ?c) t2")
      case True
      with legs ge assms(2) show ?thesis
        by (simp add: inner_body_candidate covered_push content_candidate)
    next
      case False
      with legs assms(2) show ?thesis
        by (simp add: inner_body_candidate covered_push_lower)
    qed
  qed
qed

lemma scan_pair_covered:
  assumes "js_le t1 t2" and "covered a2 a1"
  shows "covered (scan_pair clock2 fees t2 p pq a2) (scan_pair clock1 fees t1 p pq a1)"
  unfolding scan_pair_def
  by (intro fold_related [where R = covered] inner_body_covered assms)

lemma scan_all_covered:
  assumes "js_le t1 t2"
  shows "covered (scan_all clock2 fees t2 groups) (scan_all clock1 fees t1 groups)"
  unfolding scan_all_def
proof (rule fold_related [where R = covered])
  show "covered [] []" by (simp add: covered_def)
next
  fix g a2 a1
  assume "covered a2 a1"
  then show "covered ((case g of (p, pairQuotes) \<Rightarrow> \<lambda>opps.
          if length pairQuotes < 2 then opps else scan_pair clock2 fees t2 p pairQuotes opps) a2)
       ((case g of (p, pairQuotes) \<Rightarrow> \<lambda>opps.
          if length pairQuotes < 2 then opps else scan_pair clock1 fees t1 p pairQuotes opps) a1)"
    using scan_pair_covered [OF assms] by (cases g) simp
qed

lemma calculateOpportunities_covered:
  assumes "js_le t1 t2"
  shows "covered (calculateOpportunities clock2 quotes fees (Some t2))
                 (calculateOpportunities clock1 quotes fees (Some t1))"
  using scan_all_covered [OF assms, of clock2 fees "groupByPair quotes" clock1]
  by (simp add: calculateOpportunities_def Let_def covered_def mset_array_sort)

section \<open>Evaluation on concrete inputs\<close>

lemmas detect_defs =
  calculateOpportunities_def groupByPair_def scan_all_def scan_pair_def inner_body_def
  fee_or_default_def truthy_def js_sub_def js_ge_def js_gt_def array_sort_def Math_min_def
  signed_inf_def Let_def

lemma demo_profits:
  "map netProfit (calculateOpportunities clock demo_quotes demo_fees (Some (Fin 0)))
     = [Fin (229 / 105), Fin (81 / 170), Fin (31 / 70)]"
  by (simp add: detect_defs demo_quotes_def demo_fees_def)

lemma demo_first:
  "hd (calculateOpportunities clock demo_quotes demo_fees (Some (Fin 0)))
     = \<lparr> pair = ''BTC/USDT'', buyExchange = ''BINANCE'', buyPrice = Fin 42000,
         sellExchange = ''KRAKEN'', sellPrice = Fin 43000, spread = Fin 1000,
         grossProfit = Fin (50 / 21), netProfit = Fin (229 / 105), buyFee = Fin (1 / 10),
         sellFee = Fin (1 / 10), totalFee = Fin (2 / 10), volume = Fin 1,
         timestamp = Fin (real_of_int (clock (Suc 0))) \<rparr>"
  by (simp add: detect_defs demo_quotes_def demo_fees_def)

lemma demo_length:
  "length (calculateOpportunities clock demo_quotes demo_fees (Some (Fin 0))) = 3"
  using demo_profits [of clock] by (metis length_map length_Cons list.size(3) numeral_3_eq_3)

lemma demo_length_higher:
  "length (calculateOpportunities clock demo_quotes demo_fees (Some (Fin (45 / 100)))) = 2"
  by (simp add: detect_defs demo_quotes_def demo_fees_def)

section \<open>The detector: the claims\<close>

text \<open>
  C1, as stated, fails: two quotes of the same exchange for the same pair are two
  positions of the group of the pair, and the detector pairs them. Here BINANCE is
  quoted twice for BTC/USDT, and the one opportunity returned buys and sells on BINANCE.
\<close>

theorem same_exchange_paired:
  "map buyExchange
     (calculateOpportunities int
        [\<lparr> exchange = ''BINANCE'', quote.pair = ''BTC/USDT'', ask = Fin 100, bid = Fin 99,
            askVolume = Fin 1, bidVolume = Fin 1 \<rparr>,
         \<lparr> exchange = ''BINANCE'', quote.pair = ''BTC/USDT'', ask = Fin 111, bid = Fin 110,
            askVolume = Fin 1, bidVolume = Fin 1 \<rparr>]
        Map.empty (Some (Fin 0))) = [''BINANCE'']
   \<and> map sellExchange
     (calculateOpportunities int
        [\<lparr> exchange = ''BINANCE'', quote.pair = ''BTC/USDT'', ask = Fin 100, bid = Fin 99,
            askVolume = Fin 1, bidVolume = Fin 1 \<rparr>,
         \<lparr> exchange = ''BINANCE'', quote.pair = ''BTC/USDT'', ask = Fin 111, bid = Fin 110,
            askVolume = Fin 1, bidVolume = Fin 1 \<rparr>]
        Map.empty (Some (Fin 0))) = [''BINANCE'']"
  by (simp add: detect_defs)

text \<open>
  C1, amended. When no two quotes of the input share both the pair and the exchange
  identifier, every opportunity returned by \<^verbatim>\<open>calculateOpportunities\<close> has different buy
  and sell exchanges: its two legs are two different positions of the quotes of one pair.
\<close>

theorem distinct_exchanges_never_paired_with_themselves:
  assumes "distinct (map (\<lambda>q. (quote.pair q, exchange q)) quotes)"
  shows "\<forall>opp \<in> set (calculateOpportunities clock quotes fees minProfitArg).
           buyExchange opp \<noteq> sellExchange opp"
proof
  fix opp
  assume "opp \<in> set (calculateOpportunities clock quotes fees minProfitArg)"
  from calculateOpportunities_origin [OF this] obtain p i j
    where i: "i < length (filter (\<lambda>q. quote.pair q = p) quotes)"
      and j: "j < length (filter (\<lambda>q. quote.pair q = p) quotes)"
      and ij: "i \<noteq> j"
      and e: "emitted_from fees (case minProfitArg of None \<Rightarrow> Fin 0.5 | Some m \<Rightarrow> m) p
                (filter (\<lambda>q. quote.pair q = p) quotes ! i)
                (filter (\<lambda>q. quote.pair q = p) quotes ! j) opp"
    unfolding from_group_def by blast
  let ?pq = "filter (\<lambda>q. quote.pair q = p) quotes"
  from distinct_exchanges_of_pair [OF assms, of p] have "distinct (map exchange ?pq)" .
  moreover from i j have "i < length (map exchange ?pq)" and "j < length (map exchange ?pq)"
    by simp_all
  ultimately have "map exchange ?pq ! i \<noteq> map exchange ?pq ! j"
    using ij nth_eq_iff_index_eq by blast
  with i j have "exchange (?pq ! i) \<noteq> exchange (?pq ! j)"
    by simp
  with emitted_fromD(1,2) [OF e] show "buyExchange opp \<noteq> sellExchange opp"
    by simp
qed

theorem distinct_exchanges_never_paired_with_themselves_witness:
  "distinct (map (\<lambda>q. (quote.pair q, exchange q)) demo_quotes)
   \<and> hd (calculateOpportunities int demo_quotes demo_fees (Some (Fin 0)))
       \<in> set (calculateOpportunities int demo_quotes demo_fees (Some (Fin 0)))
   \<and> buyExchange (hd (calculateOpportunities int demo_quotes demo_fees (Some (Fin 0))))
       \<noteq> sellExchange (hd (calculateOpportunities int demo_quotes demo_fees (Some (Fin 0))))"
proof -
  let ?r = "calculateOpportunities int demo_quotes demo_fees (Some (Fin 0))"
  have d: "distinct (map (\<lambda>q. (quote.pair q, exchange q)) demo_quotes)"
    by (simp add: demo_quotes_def)
  have "?r \<noteq> []"
    using demo_length [of int] by auto
  then have mem: "hd ?r \<in> set ?r"
    by simp
  from distinct_exchanges_never_paired_with_themselves [OF d, of int demo_fees "Some (Fin 0)"] mem
  have "buyExchange (hd ?r) \<noteq> sellExchange (hd ?r)"
    by blast
  with d mem show ?thesis
    by blast
qed

text \<open>
  C2 at a fee schedule with an entry equal to 0: BINANCE is present in the schedule with
  fee 0, and the opportunity that buys on BINANCE is charged 0.1 on the buy leg, the
  value for an absent exchange, so that its total fee is 0.7 and not 0.6.
\<close>

theorem zero_fee_entry_charged_default:
  "map buyExchange
     (calculateOpportunities int
        [\<lparr> exchange = ''BINANCE'', quote.pair = ''BTC/USDT'', ask = Fin 42000,
            bid = Fin 41990, askVolume = Fin 1, bidVolume = Fin 1 \<rparr>,
         \<lparr> exchange = ''COINBASE'', quote.pair = ''BTC/USDT'', ask = Fin 42500,
            bid = Fin 42480, askVolume = Fin 1, bidVolume = Fin 1 \<rparr>]
        [''BINANCE'' \<mapsto> Fin 0, ''COINBASE'' \<mapsto> Fin 0.6] (Some (Fin 0))) = [''BINANCE'']
   \<and> map buyFee
     (calculateOpportunities int
        [\<lparr> exchange = ''BINANCE'', quote.pair = ''BTC/USDT'', ask = Fin 42000,
            bid = Fin 41990, askVolume = Fin 1, bidVolume = Fin 1 \<rparr>,
         \<lparr> exchange = ''COINBASE'', quote.pair = ''BTC/USDT'', ask = Fin 42500,
            bid = Fin 42480, askVolume = Fin 1, bidVolume = Fin 1 \<rparr>]
        [''BINANCE'' \<mapsto> Fin 0, ''COINBASE'' \<mapsto> Fin 0.6] (Some (Fin 0))) = [Fin 0.1]
   \<and> map totalFee
     (calculateOpportunities int
        [\<lparr> exchange = ''BINANCE'', quote.pair = ''BTC/USDT'', ask = Fin 42000,
            bid = Fin 41990, askVolume = Fin 1, bidVolume = Fin 1 \<rparr>,
         \<lparr> exchange = ''COINBASE'', quote.pair = ''BTC/USDT'', ask = Fin 42500,
            bid = Fin 42480, askVolume = Fin 1, bidVolume = Fin 1 \<rparr>]
        [''BINANCE'' \<mapsto> Fin 0, ''COINBASE'' \<mapsto> Fin 0.6] (Some (Fin 0))) = [Fin 0.7]"
  by (simp add: detect_defs)

text \<open>
  C3. Every opportunity returned by \<^verbatim>\<open>calculateOpportunities\<close> has a sell price strictly
  above its buy price and a net profit of at least the threshold (0.5 when none is given);
  its net profit is its gross profit minus its total fee, its gross profit is the price
  difference relative to the buy price, times 100, and its total fee is the sum of the fees
  of its two legs.
\<close>

theorem emitted_profitable:
  "\<forall>opp \<in> set (calculateOpportunities clock quotes fees minProfitArg).
     js_gt (sellPrice opp) (buyPrice opp)
     \<and> js_ge (netProfit opp) (case minProfitArg of None \<Rightarrow> Fin 0.5 | Some m \<Rightarrow> m)
     \<and> netProfit opp = js_sub (grossProfit opp) (totalFee opp)
     \<and> grossProfit opp
         = js_mul (js_div (js_sub (sellPrice opp) (buyPrice opp)) (buyPrice opp)) (Fin 100)
     \<and> totalFee opp = js_add (buyFee opp) (sellFee opp)"
proof
  fix opp
  assume "opp \<in> set (calculateOpportunities clock quotes fees minProfitArg)"
  from calculateOpportunities_origin [OF this] obtain p buyQ sellQ
    where e: "emitted_from fees (case minProfitArg of None \<Rightarrow> Fin 0.5 | Some m \<Rightarrow> m)
                p buyQ sellQ opp"
    unfolding from_group_def by blast
  from emitted_fromD(3) [OF e] have "js_gt (sellPrice opp) (buyPrice opp)"
    using js_not_le_iff [OF emitted_from_not_NaN(2,3) [OF e]] by (simp add: js_gt_def)
  with emitted_fromD(4-7) [OF e] show "js_gt (sellPrice opp) (buyPrice opp)
     \<and> js_ge (netProfit opp) (case minProfitArg of None \<Rightarrow> Fin 0.5 | Some m \<Rightarrow> m)
     \<and> netProfit opp = js_sub (grossProfit opp) (totalFee opp)
     \<and> grossProfit opp
         = js_mul (js_div (js_sub (sellPrice opp) (buyPrice opp)) (buyPrice opp)) (Fin 100)
     \<and> totalFee opp = js_add (buyFee opp) (sellFee opp)"
    by blast
qed

theorem emitted_profitable_witness:
  "hd (calculateOpportunities int demo_quotes demo_fees (Some (Fin 0)))
     \<in> set (calculateOpportunities int demo_quotes demo_fees (Some (Fin 0)))
   \<and> sellPrice (hd (calculateOpportunities int demo_quotes demo_fees (Some (Fin 0)))) = Fin 43000
   \<and> buyPrice (hd (calculateOpportunities int demo_quotes demo_fees (Some (Fin 0)))) = Fin 42000
   \<and> js_gt (sellPrice (hd (calculateOpportunities int demo_quotes demo_fees (Some (Fin 0)))))
            (buyPrice (hd (calculateOpportunities int demo_quotes demo_fees (Some (Fin 0)))))
   \<and> js_ge (netProfit (hd (calculateOpportunities int demo_quotes demo_fees (Some (Fin 0)))))
            (Fin 0)"
proof -
  let ?r = "calculateOpportunities int demo_quotes demo_fees (Some (Fin 0))"
  have "?r \<noteq> []"
    using demo_length [of int] by auto
  then have mem: "hd ?r \<in> set ?r"
    by simp
  from emitted_profitable [of int demo_quotes demo_fees "Some (Fin 0)"] mem
  have "js_gt (sellPrice (hd ?r)) (buyPrice (hd ?r))"
    and "js_ge (netProfit (hd ?r)) (case Some (Fin 0) of None \<Rightarrow> Fin 0.5 | Some m \<Rightarrow> m)"
    by blast+
  with mem show ?thesis
    by (simp add: demo_first)
qed

text \<open>
  C4. The sequence returned by \<^verbatim>\<open>calculateOpportunities\<close> is sorted by net profit,
  highest first: for positions \<open>k < l\<close> of the result, the net profit at \<open>k\<close> is greater
  than or equal to the net profit at \<open>l\<close>.
\<close>

theorem ranked_by_net_profit:
  assumes "k < l" and "l < length (calculateOpportunities clock quotes fees minProfitArg)"
  shows "js_ge (netProfit (calculateOpportunities clock quotes fees minProfitArg ! k))
               (netProfit (calculateOpportunities clock quotes fees minProfitArg ! l))"
proof -
  have "sorted_wrt (\<lambda>a b. js_ge (netProfit a) (netProfit b))
          (calculateOpportunities clock quotes fees minProfitArg)"
    unfolding calculateOpportunities_def Let_def
    by (rule sorted_array_sort) (rule scan_all_not_NaN)
  with assms show ?thesis
    by (simp add: sorted_wrt_iff_nth_less)
qed

theorem ranked_by_net_profit_witness:
  "(0::nat) < 1
   \<and> 1 < length (calculateOpportunities int demo_quotes demo_fees (Some (Fin 0)))
   \<and> map netProfit (calculateOpportunities int demo_quotes demo_fees (Some (Fin 0)))
       = [Fin (229 / 105), Fin (81 / 170), Fin (31 / 70)]
   \<and> js_ge (netProfit (calculateOpportunities int demo_quotes demo_fees (Some (Fin 0)) ! 0))
            (netProfit (calculateOpportunities int demo_quotes demo_fees (Some (Fin 0)) ! 1))"
proof -
  have len: "1 < length (calculateOpportunities int demo_quotes demo_fees (Some (Fin 0)))"
    by (simp add: demo_length)
  have "(0::nat) < 1" by simp
  from ranked_by_net_profit [OF this len] demo_profits [of int] len show ?thesis
    by simp
qed

text \<open>
  C5. For thresholds \<open>t1 \<le> t2\<close> and the same quotes and fees, every opportunity found
  with \<open>t2\<close> is found with \<open>t1\<close> as well, compared by content (the detection times
  differ, the clock being read in two different runs), and the result for \<open>t2\<close> is not
  longer than the result for \<open>t1\<close>.
\<close>

theorem threshold_monotone:
  assumes "js_le t1 t2"
  shows "(\<forall>opp2 \<in> set (calculateOpportunities clock2 quotes fees (Some t2)).
            \<exists>opp1 \<in> set (calculateOpportunities clock1 quotes fees (Some t1)).
              content opp1 = content opp2)
       \<and> length (calculateOpportunities clock2 quotes fees (Some t2))
           \<le> length (calculateOpportunities clock1 quotes fees (Some t1))"
proof -
  let ?r2 = "calculateOpportunities clock2 quotes fees (Some t2)"
  let ?r1 = "calculateOpportunities clock1 quotes fees (Some t1)"
  from calculateOpportunities_covered [OF assms]
  have sub: "mset (map content ?r2) \<subseteq># mset (map content ?r1)"
    by (simp add: covered_def)
  from set_mset_mono [OF sub] have "content ` set ?r2 \<subseteq> content ` set ?r1"
    by simp
  then have "\<forall>opp2 \<in> set ?r2. \<exists>opp1 \<in> set ?r1. content opp1 = content opp2"
    by (metis (no_types, lifting) image_iff subsetD)
  moreover from size_mset_mono [OF sub] have "length ?r2 \<le> length ?r1"
    by simp
  ultimately show ?thesis by blast
qed

theorem threshold_monotone_witness:
  "js_le (Fin 0) (Fin (45 / 100))
   \<and> length (calculateOpportunities (int \<circ> Suc) demo_quotes demo_fees (Some (Fin (45 / 100)))) = 2
   \<and> length (calculateOpportunities int demo_quotes demo_fees (Some (Fin 0))) = 3
   \<and> (\<exists>opp1 \<in> set (calculateOpportunities int demo_quotes demo_fees (Some (Fin 0))).
         content opp1
         = content (hd (calculateOpportunities (int \<circ> Suc) demo_quotes demo_fees
                          (Some (Fin (45 / 100))))))
   \<and> length (calculateOpportunities (int \<circ> Suc) demo_quotes demo_fees (Some (Fin (45 / 100))))
       \<le> length (calculateOpportunities int demo_quotes demo_fees (Some (Fin 0)))"
proof -
  let ?r2 = "calculateOpportunities (int \<circ> Suc) demo_quotes demo_fees (Some (Fin (45 / 100)))"
  let ?r1 = "calculateOpportunities int demo_quotes demo_fees (Some (Fin 0))"
  have le: "js_le (Fin 0) (Fin (45 / 100))"
    by simp
  have "?r2 \<noteq> []"
    using demo_length_higher [of "int \<circ> Suc"] by auto
  then have mem: "hd ?r2 \<in> set ?r2"
    by simp
  note mono = threshold_monotone [OF le, of "int \<circ> Suc" demo_quotes demo_fees int]
  from mono mem have "\<exists>opp1 \<in> set ?r1. content opp1 = content (hd ?r2)"
    by blast
  moreover from mono have "length ?r2 \<le> length ?r1"
    by blast
  ultimately show ?thesis
    using le demo_length [of int] demo_length_higher [of "int \<circ> Suc"] by blast
qed

text \<open>
  C6. On the two quotes of BINANCE (ask 42000, bid 41990) and COINBASE (ask 42500,
  bid 42480) for BTC/USDT, with fees 0.1 for BINANCE and 0.6 for COINBASE and threshold 0,
  the detector returns exactly one opportunity: buy on BINANCE at 42000, sell on COINBASE
  at 42480, gross profit about 1.1429, total fee exactly 0.7, net profit about 0.4429.
  With threshold 0.5 it returns none. The volumes and the clock are arbitrary.
\<close>

theorem scenario_A:
  "\<exists>opp g n.
     calculateOpportunities clock
       [\<lparr> exchange = ''BINANCE'', quote.pair = ''BTC/USDT'', ask = Fin 42000,
           bid = Fin 41990, askVolume = av1, bidVolume = bv1 \<rparr>,
        \<lparr> exchange = ''COINBASE'', quote.pair = ''BTC/USDT'', ask = Fin 42500,
           bid = Fin 42480, askVolume = av2, bidVolume = bv2 \<rparr>]
       [''BINANCE'' \<mapsto> Fin 0.1, ''COINBASE'' \<mapsto> Fin 0.6] (Some (Fin 0)) = [opp]
     \<and> buyExchange opp = ''BINANCE'' \<and> buyPrice opp = Fin 42000
     \<and> sellExchange opp = ''COINBASE'' \<and> sellPrice opp = Fin 42480
     \<and> grossProfit opp = Fin g \<and> \<bar>g - 1.1429\<bar> < 0.00005
     \<and> totalFee opp = Fin 0.7
     \<and> netProfit opp = Fin n \<and> \<bar>n - 0.4429\<bar> < 0.00005
     \<and> calculateOpportunities clock
       [\<lparr> exchange = ''BINANCE'', quote.pair = ''BTC/USDT'', ask = Fin 42000,
           bid = Fin 41990, askVolume = av1, bidVolume = bv1 \<rparr>,
        \<lparr> exchange = ''COINBASE'', quote.pair = ''BTC/USDT'', ask = Fin 42500,
           bid = Fin 42480, askVolume = av2, bidVolume = bv2 \<rparr>]
       [''BINANCE'' \<mapsto> Fin 0.1, ''COINBASE'' \<mapsto> Fin 0.6] (Some (Fin 0.5)) = []"
  apply (simp add: detect_defs)
  apply (rule exI [of _ "8 / 7"])
  apply simp
  apply (rule exI [of _ "31 / 70"])
  apply simp
  done

section \<open>Analytics: the claims\<close>

text \<open>
  C7. \<^verbatim>\<open>getStats\<close> on the empty sequence of opportunities returns count 0, average
  net profit 0, maximum net profit 0 and total volume 0: the empty input is a case of
  its own, and no division takes place.
\<close>

theorem getStats_empty:
  "getStats [] = \<lparr> count = 0, avgProfit = Fin 0, maxProfit = Fin 0, totalVolume = Fin 0 \<rparr>"
  by (simp add: getStats_def)

text \<open>
  C8. For an opportunity with a positive purchase price and a positive invested amount,
  \<^verbatim>\<open>calculateProfitAmount\<close> returns the quantities of the formula, each computed from
  the ones before it, all of them part of the result; on finite values they are the
  values of the projection that the specification words on real numbers.
\<close>

theorem calculateProfitAmount_formula:
  assumes "js_gt (buyPrice opp) (Fin 0)" and "js_gt investment (Fin 0)"
  shows "(let r = calculateProfitAmount opp investment in
       investmentAmount r = investment
     \<and> buyAmount r = js_div investment (buyPrice opp)
     \<and> buyFeeAmount r = js_div (js_mul (buyAmount r) (buyFee opp)) (Fin 100)
     \<and> netBuyAmount r = js_sub (buyAmount r) (buyFeeAmount r)
     \<and> sellValue r = js_mul (netBuyAmount r) (sellPrice opp)
     \<and> sellFeeAmount r = js_div (js_mul (sellValue r) (sellFee opp)) (Fin 100)
     \<and> netSellValue r = js_sub (sellValue r) (sellFeeAmount r)
     \<and> profit r = js_sub (netSellValue r) investment
     \<and> profitPercent r = js_mul (js_div (profit r) investment) (Fin 100))
   \<and> (\<forall>p s bf sf a.
         buyPrice opp = Fin p \<and> sellPrice opp = Fin s \<and> buyFee opp = Fin bf
         \<and> sellFee opp = Fin sf \<and> investment = Fin a
         \<longrightarrow> calculateProfitAmount opp investment = projectProfit p s bf sf a)"
proof (intro conjI allI impI)
  show "let r = calculateProfitAmount opp investment in
       investmentAmount r = investment
     \<and> buyAmount r = js_div investment (buyPrice opp)
     \<and> buyFeeAmount r = js_div (js_mul (buyAmount r) (buyFee opp)) (Fin 100)
     \<and> netBuyAmount r = js_sub (buyAmount r) (buyFeeAmount r)
     \<and> sellValue r = js_mul (netBuyAmount r) (sellPrice opp)
     \<and> sellFeeAmount r = js_div (js_mul (sellValue r) (sellFee opp)) (Fin 100)
     \<and> netSellValue r = js_sub (sellValue r) (sellFeeAmount r)
     \<and> profit r = js_sub (netSellValue r) investment
     \<and> profitPercent r = js_mul (js_div (profit r) investment) (Fin 100)"
    by (simp add: calculateProfitAmount_def Let_def)
next
  fix p s bf sf a
  assume fin: "buyPrice opp = Fin p \<and> sellPrice opp = Fin s \<and> buyFee opp = Fin bf
         \<and> sellFee opp = Fin sf \<and> investment = Fin a"
  with assms have "0 < p" and "0 < a"
    by (simp_all add: js_gt_def)
  with fin show "calculateProfitAmount opp investment = projectProfit p s bf sf a"
    by (simp add: calculateProfitAmount_def projectProfit_def Let_def js_sub_def)
qed

theorem calculateProfitAmount_formula_witness:
  "js_gt (Fin 42000) (Fin 0) \<and> js_gt (Fin 1000) (Fin 0)
   \<and> calculateProfitAmount
        \<lparr> pair = ''BTC/USDT'', buyExchange = ''BINANCE'', buyPrice = Fin 42000,
          sellExchange = ''COINBASE'', sellPrice = Fin 42500, spread = Fin 500,
          grossProfit = Fin (25 / 21), netProfit = Fin (103 / 210), buyFee = Fin (1 / 10),
          sellFee = Fin (6 / 10), totalFee = Fin (7 / 10), volume = Fin 1,
          timestamp = Fin 0 \<rparr>
        (Fin 1000)
      = projectProfit 42000 42500 (1 / 10) (6 / 10) 1000
   \<and> buyAmount (projectProfit 42000 42500 (1 / 10) (6 / 10) 1000) = Fin (1 / 42)"
proof -
  let ?opp = "\<lparr> pair = ''BTC/USDT'', buyExchange = ''BINANCE'', buyPrice = Fin 42000,
          sellExchange = ''COINBASE'', sellPrice = Fin 42500, spread = Fin 500,
          grossProfit = Fin (25 / 21), netProfit = Fin (103 / 210), buyFee = Fin (1 / 10),
          sellFee = Fin (6 / 10), totalFee = Fin (7 / 10), volume = Fin 1,
          timestamp = Fin 0 \<rparr>"
  have price: "js_gt (buyPrice ?opp) (Fin 0)" and amount: "js_gt (Fin 1000) (Fin 0)"
    by (simp_all add: js_gt_def)
  note formula = calculateProfitAmount_formula [OF price amount]
  have "calculateProfitAmount ?opp (Fin 1000)
      = projectProfit 42000 42500 (1 / 10) (6 / 10) 1000"
    by (rule formula [THEN conjunct2, rule_format]) simp
  moreover have "buyAmount (projectProfit 42000 42500 (1 / 10) (6 / 10) 1000) = Fin (1 / 42)"
    by (simp add: projectProfit_def Let_def)
  ultimately show ?thesis
    using price amount by simp
qed

text \<open>
  C9. \<^verbatim>\<open>isValid\<close> holds exactly when the age of the opportunity, the current time minus
  its detection time, is strictly below the maximum age and its net profit is strictly
  positive; a maximum age that is not supplied is 60000 milliseconds. On finite values
  the two comparisons are those of the real numbers.
\<close>

theorem isValid_iff:
  "isValid now opp None = isValid now opp (Some (Fin 60000))
   \<and> isValid now opp (Some maxAge) =
       (js_lt (js_sub (Fin (real_of_int now)) (timestamp opp)) maxAge
        \<and> js_gt (netProfit opp) (Fin 0))
   \<and> isValid now (opp\<lparr> timestamp := Fin t, netProfit := Fin n \<rparr>) (Some (Fin m)) =
       (real_of_int now - t < m \<and> 0 < n)"
  by (simp add: isValid_def js_sub_def js_gt_def)

text \<open>
  C10. \<^verbatim>\<open>filterByPair\<close> and \<^verbatim>\<open>filterByMinProfit\<close> return a subsequence of their input:
  the elements kept are input elements, unchanged and in their input order, and they are
  exactly the elements that satisfy the condition of the filter, each as often as the
  input has it.
\<close>

theorem filters_keep_subsequence:
  "subseq (filterByPair opps pairArg) opps
   \<and> mset (filterByPair opps pairArg) = filter_mset (pair_selected pairArg) (mset opps)
   \<and> subseq (filterByMinProfit opps m) opps
   \<and> mset (filterByMinProfit opps m)
       = filter_mset (\<lambda>opp. js_ge (netProfit opp) m) (mset opps)"
proof -
  have "filterByPair opps pairArg = filter (pair_selected pairArg) opps"
    by (cases pairArg) (auto simp: filterByPair_def pair_selected_def intro: filter_cong)
  then show ?thesis
    by (simp add: filterByMinProfit_def)
qed

end
